theory Spec2Isabelle
  imports Main "HOL-Library.Sublist"
begin

section \<open>Markdown to SSML: the renderer of convert.py\<close>

text \<open>
  Python strings are modelled as \<^typ>\<open>string\<close>. Every character the renderer inspects or
  emits is ASCII, so the model does not depend on how other code points are represented.
  Python's unbounded \<open>int\<close> (the heading level) is \<^typ>\<open>int\<close>; \<open>Optional[str]\<close> is
  \<^typ>\<open>string option\<close>.
\<close>

subsection \<open>Constants\<close>

definition BREAK_TIMES :: "int \<rightharpoonup> string" where
  "BREAK_TIMES = [1 \<mapsto> ''300ms'', 2 \<mapsto> ''200ms'', 3 \<mapsto> ''100ms'', 4 \<mapsto> ''0ms'']"

definition PARAGRAPH_BREAK :: string where
  "PARAGRAPH_BREAK = ''100ms''"

definition LINEBREAK :: string where
  "LINEBREAK = ''400ms''"

definition HRULE_BREAK :: string where
  "HRULE_BREAK = ''600ms''"

text \<open>\<open>d.get(k, default)\<close> of a Python dictionary.\<close>

definition dict_get :: "('k \<rightharpoonup> 'v) \<Rightarrow> 'k \<Rightarrow> 'v \<Rightarrow> 'v" where
  "dict_get d k dflt = (case d k of None \<Rightarrow> dflt | Some v \<Rightarrow> v)"

subsection \<open>The standard library's \<open>html.escape\<close>\<close>

text \<open>
  \<open>s.replace(old, new)\<close> for a one-character \<open>old\<close>: every occurrence is replaced,
  left to right.
\<close>

definition str_replace :: "char \<Rightarrow> string \<Rightarrow> string \<Rightarrow> string" where
  "str_replace old new s = concat (map (\<lambda>c. if c = old then new else [c]) s)"

text \<open>
  \<open>html.escape(s, quote=True)\<close>, as the standard library writes it: five replacements in
  sequence, the ampersand first.
\<close>

definition html_escape :: "string \<Rightarrow> string" where
  \<open>html_escape s =
     (let s = str_replace (CHR ''&'') ''&amp;'' s;
          s = str_replace (CHR ''<'') ''&lt;'' s;
          s = str_replace (CHR ''>'') ''&gt;'' s;
          s = str_replace (CHR 0x22) ''&quot;'' s;
          s = str_replace (CHR 0x27) ''&#x27;'' s
      in s)\<close>

subsection \<open>The methods of \<open>SSMLRenderer\<close>\<close>

text \<open>
  Each method is a function of its arguments; \<open>self\<close> carries no state. The keyword
  arguments of \<open>heading\<close> are ignored by the source and are left out.
\<close>

definition heading :: "string \<Rightarrow> int \<Rightarrow> string" where
  \<open>heading text level =
     (let break_time = dict_get BREAK_TIMES level ''0ms''
      in text @ ''<break time="'' @ break_time @ ''"/>\<newline>'')\<close>

definition emphasis :: "string \<Rightarrow> string" where
  \<open>emphasis text = ''<emphasis level="moderate">'' @ text @ ''</emphasis>''\<close>

definition strong :: "string \<Rightarrow> string" where
  \<open>strong text = ''<emphasis level="strong">'' @ text @ ''</emphasis>''\<close>

definition linebreak :: string where
  \<open>linebreak = ''<break time="'' @ LINEBREAK @ ''"/>\<newline>''\<close>

definition thematic_break :: string where
  \<open>thematic_break = ''<break time="'' @ HRULE_BREAK @ ''"/>\<newline>''\<close>

text \<open>
  \<open>f"image of {title}" if title else ""\<close>: \<open>None\<close> and the empty string are the two
  falsy values of an \<open>Optional[str]\<close>.
\<close>

definition image_ssml :: "string \<Rightarrow> string \<Rightarrow> string option \<Rightarrow> string" where
  "image_ssml src alt title =
     (case title of
        None \<Rightarrow> ''''
      | Some t \<Rightarrow> if t \<noteq> '''' then ''image of '' @ t else '''')"

definition paragraph_ssml :: "string \<Rightarrow> string" where
  \<open>paragraph_ssml text = ''<p>'' @ text @ ''<break time="'' @ PARAGRAPH_BREAK @ ''"/></p>\<newline>''\<close>

definition link :: "string \<Rightarrow> string \<Rightarrow> string option \<Rightarrow> string" where
  "link text url title = text"

definition text_ssml :: "string \<Rightarrow> string" where
  "text_ssml text = html_escape text"

definition block_code :: "string \<Rightarrow> string option \<Rightarrow> string" where
  "block_code code info = text_ssml code"

definition codespan :: "string \<Rightarrow> string" where
  "codespan text = text_ssml text"

subsection \<open>Escaped forms\<close>

text \<open>
  The characters \<open>html.escape\<close> replaces, and what it puts in the place of one character.
  These are used to state what the escaping does; that the code agrees with them is
  proved below (\<open>html_escape_chars\<close>).
\<close>

definition special :: "char set" where
  \<open>special = {CHR ''&'', CHR ''<'', CHR ''>'', CHR 0x22, CHR 0x27}\<close>

definition entities :: "string set" where
  \<open>entities = {''&amp;'', ''&lt;'', ''&gt;'', ''&quot;'', ''&#x27;''}\<close>

definition entity_of :: "char \<Rightarrow> string" where
  \<open>entity_of c =
     (if c = CHR ''&'' then ''&amp;''
      else if c = CHR ''<'' then ''&lt;''
      else if c = CHR ''>'' then ''&gt;''
      else if c = CHR 0x22 then ''&quot;''
      else if c = CHR 0x27 then ''&#x27;''
      else [c])\<close>

subsection \<open>The node tree and the dispatch of the parser library\<close>

text \<open>
  The nodes the Markdown parser hands to the renderer, each with the attributes the
  library passes to the renderer's method. The first eleven constructors are the node
  types \<open>SSMLRenderer\<close> overrides; block quotes, lists and list items are node types it
  leaves to the class it extends. A list carries whether it is ordered and the number an
  ordered list starts at, when that is not 1.
\<close>

datatype node =
    Heading int "node list"
  | Paragraph "node list"
  | Emphasis "node list"
  | Strong "node list"
  | LineBreak
  | ThematicBreak
  | ImageNode string string "string option"
  | Link "node list" string "string option"
  | Text string
  | CodeSpan string
  | CodeBlock string "string option"
  | BlockQuote "node list"
  | ListNode bool "int option" "node list"
  | ListItem "node list"

text \<open>
  \<open>class SSMLRenderer(mistune.HTMLRenderer)\<close>: the methods that are not overridden are
  those of the parser library's HTML renderer. The library is not part of the repository,
  so the inherited methods are a parameter of the model: \<open>block_quote(text)\<close>,
  \<open>list(text, ordered, level, start)\<close> and \<open>list_item(text, level)\<close>, without the
  nesting level.
\<close>

record html_renderer =
  block_quote :: "string \<Rightarrow> string"
  list_html :: "string \<Rightarrow> bool \<Rightarrow> int option \<Rightarrow> string"
  list_item :: "string \<Rightarrow> string"

text \<open>
  The library renders a node by rendering its children in order, concatenating the
  fragments, and calling the renderer's method of the node's type. A method
  \<open>SSMLRenderer\<close> defines is called; any other is inherited. The calls are those of
  mistune 2, the release whose call \<open>image(src, alt, title)\<close> fits the parameters of
  \<open>SSMLRenderer.image\<close>: the arguments are passed by position, in the order of the
  library's own renderer. For a link that order is \<open>link(link, text, title)\<close>, the target
  first and the rendered children second, so the parameter \<open>text\<close> of
  \<open>SSMLRenderer.link\<close> receives the target and the parameter \<open>url\<close> the rendered
  children.
\<close>

fun render_token :: "html_renderer \<Rightarrow> node \<Rightarrow> string"
  and render_tokens :: "html_renderer \<Rightarrow> node list \<Rightarrow> string" where
  "render_token base (Heading level children) = heading (render_tokens base children) level"
| "render_token base (Paragraph children) = paragraph_ssml (render_tokens base children)"
| "render_token base (Emphasis children) = emphasis (render_tokens base children)"
| "render_token base (Strong children) = strong (render_tokens base children)"
| "render_token base LineBreak = linebreak"
| "render_token base ThematicBreak = thematic_break"
| "render_token base (ImageNode src alt title) = image_ssml src alt title"
| "render_token base (Link children target title) =
     link target (render_tokens base children) title"
| "render_token base (Text raw) = text_ssml raw"
| "render_token base (CodeSpan raw) = codespan raw"
| "render_token base (CodeBlock raw info) = block_code raw info"
| "render_token base (BlockQuote children) = block_quote base (render_tokens base children)"
| "render_token base (ListNode ordered start children) =
     list_html base (render_tokens base children) ordered start"
| "render_token base (ListItem children) = list_item base (render_tokens base children)"
| "render_tokens base [] = []"
| "render_tokens base (tok # toks) = render_token base tok @ render_tokens base toks"

text \<open>
  \<open>markdown_to_ssml\<close>: \<open>markdown\<close> is the parser of the object
  \<open>mistune.create_markdown(renderer=renderer)\<close> returns; calling that object parses
  the text and renders the tree with the renderer.
\<close>

definition markdown_to_ssml ::
  "(string \<Rightarrow> node list) \<Rightarrow> html_renderer \<Rightarrow> string \<Rightarrow> string" where
  "markdown_to_ssml markdown base markdown_text =
     (let out_text = render_tokens base (markdown markdown_text)
      in ''<speak>'' @ out_text @ ''</speak>'')"

text \<open>\<open>str(n)\<close> for an integer: its decimal digits, after a minus sign when negative.\<close>

fun str_nat :: "nat \<Rightarrow> string" where
  "str_nat n =
     (if n < 10 then [''0123456789'' ! n]
      else str_nat (n div 10) @ [''0123456789'' ! (n mod 10)])"

definition str_int :: "int \<Rightarrow> string" where
  "str_int i = (if i < 0 then ''-'' @ str_nat (nat (- i)) else str_nat (nat i))"

text \<open>
  Arguments for the examples: an instance of the inherited methods (block quotes, lists
  and list items as the library's HTML renderer writes them), and a parser given as a
  table of the trees of five documents. Every other text has the empty tree here; no
  example uses one.
\<close>

definition example_base :: html_renderer where
  \<open>example_base =
     \<lparr> block_quote = (\<lambda>text. ''<blockquote>\<newline>'' @ text @ ''</blockquote>\<newline>''),
       list_html = (\<lambda>text ordered start.
          if ordered then
            ''<ol''
            @ (case start of None \<Rightarrow> '''' | Some n \<Rightarrow> '' start="'' @ str_int n @ ''"'')
            @ ''>\<newline>'' @ text @ ''</ol>\<newline>''
          else ''<ul>\<newline>'' @ text @ ''</ul>\<newline>''),
       list_item = (\<lambda>text. ''<li>'' @ text @ ''</li>\<newline>'') \<rparr>\<close>

definition example_markdown :: "string \<Rightarrow> node list" where
  \<open>example_markdown s =
     (if s = ''# Title\<newline>\<newline>Hello world.'' then
        [Heading 1 [Text ''Title''], Paragraph [Text ''Hello world.'']]
      else if s = ''![alt](pic.png "a < b")'' then
        [Paragraph [ImageNode ''pic.png'' ''alt'' (Some ''a < b'')]]
      else if s = ''![alt](pic.png "<p>")'' then
        [Paragraph [ImageNode ''pic.png'' ''alt'' (Some ''<p>'')]]
      else if s = ''- one\<newline>- two\<newline>\<newline>> quoted'' then
        [ListNode False None [ListItem [Text ''one''], ListItem [Text ''two'']],
         BlockQuote [Paragraph [Text ''quoted'']]]
      else if s = ''3. three\<newline>4. four'' then
        [ListNode True (Some 3) [ListItem [Text ''three''], ListItem [Text ''four'']]]
      else [])\<close>

subsection \<open>Measures on trees and on output\<close>

text \<open>The nodes of a tree: a node and all its descendants, in document order.\<close>

fun nodes_of :: "node \<Rightarrow> node list"
  and nodes_of_list :: "node list \<Rightarrow> node list" where
  "nodes_of (Heading level children) = Heading level children # nodes_of_list children"
| "nodes_of (Paragraph children) = Paragraph children # nodes_of_list children"
| "nodes_of (Emphasis children) = Emphasis children # nodes_of_list children"
| "nodes_of (Strong children) = Strong children # nodes_of_list children"
| "nodes_of (Link children url title) = Link children url title # nodes_of_list children"
| "nodes_of (BlockQuote children) = BlockQuote children # nodes_of_list children"
| "nodes_of (ListNode ordered start children) =
     ListNode ordered start children # nodes_of_list children"
| "nodes_of (ListItem children) = ListItem children # nodes_of_list children"
| "nodes_of LineBreak = [LineBreak]"
| "nodes_of ThematicBreak = [ThematicBreak]"
| "nodes_of (ImageNode src alt title) = [ImageNode src alt title]"
| "nodes_of (Text raw) = [Text raw]"
| "nodes_of (CodeSpan raw) = [CodeSpan raw]"
| "nodes_of (CodeBlock raw info) = [CodeBlock raw info]"
| "nodes_of_list [] = []"
| "nodes_of_list (tok # toks) = nodes_of tok @ nodes_of_list toks"


fun is_paragraph :: "node \<Rightarrow> bool" where
  "is_paragraph (Paragraph children) = True"
| "is_paragraph _ = False"

definition count_paragraphs :: "node list \<Rightarrow> nat" where
  "count_paragraphs toks = length (filter is_paragraph (nodes_of_list toks))"

text \<open>The number of positions of a string at which a pattern starts.\<close>

fun count_sub :: "string \<Rightarrow> string \<Rightarrow> nat" where
  "count_sub pat [] = 0"
| "count_sub pat (c # cs) = (if prefix pat (c # cs) then 1 else 0) + count_sub pat cs"

text \<open>
  Trees of the node types \<open>SSMLRenderer\<close> overrides in which every image title and every
  link target is free of \<open><\<close> and \<open>&\<close>, and no paragraph stands below a link.
\<close>

fun plain_title :: "string option \<Rightarrow> bool" where
  "plain_title None = True"
| "plain_title (Some t) = (CHR ''<'' \<notin> set t \<and> CHR ''&'' \<notin> set t)"

fun ssml_node :: "node \<Rightarrow> bool"
  and ssml_nodes :: "node list \<Rightarrow> bool" where
  "ssml_node (Heading level children) = ssml_nodes children"
| "ssml_node (Paragraph children) = ssml_nodes children"
| "ssml_node (Emphasis children) = ssml_nodes children"
| "ssml_node (Strong children) = ssml_nodes children"
| "ssml_node LineBreak = True"
| "ssml_node ThematicBreak = True"
| "ssml_node (ImageNode src alt title) = plain_title title"
| "ssml_node (Link children target title) =
     (plain_title (Some target) \<and> filter is_paragraph (nodes_of_list children) = [])"
| "ssml_node (Text raw) = True"
| "ssml_node (CodeSpan raw) = True"
| "ssml_node (CodeBlock raw info) = True"
| "ssml_node (BlockQuote children) = False"
| "ssml_node (ListNode ordered start children) = False"
| "ssml_node (ListItem children) = False"
| "ssml_nodes [] = True"
| "ssml_nodes (tok # toks) = (ssml_node tok \<and> ssml_nodes toks)"

subsection \<open>Well-formedness of XML content\<close>

text \<open>
  A scanner for the two requirements the central invariant names: tags are balanced and
  properly nested, and in character data \<open><\<close> only starts a tag and \<open>&\<close> only starts a
  reference. Attributes are not inspected beyond the tag's extent.
\<close>

datatype scan_mode = Content | InTag string | InRef string

definition ref_char :: "char \<Rightarrow> bool" where
  "ref_char c \<longleftrightarrow>
     c \<in> set ''abcdefghijklmnopqrstuvwxyzABCDEFGHIJKLMNOPQRSTUVWXYZ0123456789#''"

definition tag_name :: "string \<Rightarrow> string" where
  "tag_name t = takeWhile (\<lambda>c. c \<noteq> CHR '' '' \<and> c \<noteq> CHR ''/'') t"

text \<open>
  The effect of the tag with the text \<open>t\<close> between \<open><\<close> and \<open>>\<close> on the stack of open
  elements: an end tag closes the innermost element, an empty-element tag leaves the
  stack alone, a start tag opens an element.
\<close>

definition apply_tag :: "string \<Rightarrow> string list \<Rightarrow> string list option" where
  "apply_tag t stack =
     (case t of
        [] \<Rightarrow> None
      | c # cs \<Rightarrow>
          if c = CHR ''/'' then
            (case stack of
               [] \<Rightarrow> None
             | open_name # rest \<Rightarrow> if cs = open_name then Some rest else None)
          else if tag_name t = [] then None
          else if last t = CHR ''/'' then Some stack
          else Some (tag_name t # stack))"

fun xml_scan :: "scan_mode \<Rightarrow> string list \<Rightarrow> string \<Rightarrow> bool" where
  "xml_scan Content stack [] = (stack = [])"
| "xml_scan Content stack (c # cs) =
     (if c = CHR ''<'' then xml_scan (InTag []) stack cs
      else if c = CHR ''&'' then xml_scan (InRef []) stack cs
      else xml_scan Content stack cs)"
| "xml_scan (InTag t) stack [] = False"
| "xml_scan (InTag t) stack (c # cs) =
     (if c = CHR ''>'' then
        (case apply_tag (rev t) stack of
           None \<Rightarrow> False
         | Some stack' \<Rightarrow> xml_scan Content stack' cs)
      else if c = CHR ''<'' then False
      else xml_scan (InTag (c # t)) stack cs)"
| "xml_scan (InRef r) stack [] = False"
| "xml_scan (InRef r) stack (c # cs) =
     (if c = CHR '';'' then r \<noteq> [] \<and> xml_scan Content stack cs
      else if ref_char c then xml_scan (InRef (c # r)) stack cs
      else False)"

definition well_formed_content :: "string \<Rightarrow> bool" where
  "well_formed_content s = xml_scan Content [] s"

text \<open>
  A string that does not end inside the pattern \<open><p>\<close>: appending to it creates no
  occurrence across the joint.
\<close>

definition tag_closed :: "string \<Rightarrow> bool" where
  "tag_closed s \<longleftrightarrow> \<not> suffix ''<'' s \<and> \<not> suffix ''<p'' s"

section \<open>The command-line run\<close>

text \<open>
  An exception in flight. \<open>Exception m\<close> is an instance of \<open>Exception\<close> or of a subclass
  with \<open>str(e) = m\<close>, which \<open>except Exception\<close> catches; \<open>BaseException m\<close> is one it does
  not catch (\<open>KeyboardInterrupt\<close>, \<open>SystemExit\<close>).
\<close>

datatype exc = Exception string | BaseException string

text \<open>The state a run acts on: the files by path, and the lines printed so far.\<close>

record world =
  files :: "string \<rightharpoonup> string"
  stdout :: "string list"

text \<open>
  What the run takes from outside the repository: the Markdown parser and the inherited
  renderer methods, \<open>os.path.splitext(p)[0]\<close>, whether opening and reading a path
  raises, whether opening a path for writing raises,
  whether \<open>texttospeech.TextToSpeechClient()\<close> raises, and what
  \<open>client.synthesize_speech\<close> does with an SSML string: it raises, or returns a response
  with this audio content. The voice and the audio configuration are constants of the
  source and are part of that function.
\<close>

record env =
  markdown :: "string \<Rightarrow> node list"
  inherited :: html_renderer
  splitext_root :: "string \<Rightarrow> string"
  read_error :: "string \<Rightarrow> exc option"
  open_error :: "string \<Rightarrow> exc option"
  client_error :: "exc option"
  synthesize_speech :: "string \<Rightarrow> exc + string"

record args =
  input_file :: string
  get_ogg_flag :: bool

definition print :: "string \<Rightarrow> world \<Rightarrow> world" where
  "print line w = w\<lparr>stdout := stdout w @ [line]\<rparr>"

text \<open>
  \<open>with open(path, 'r', encoding='utf-8') as f: f.read()\<close>. An error the environment
  raises on opening or reading the path (no permission, a directory, bytes that are not
  UTF-8) leaves with its own exception; a path with no file raises \<open>FileNotFoundError\<close>,
  whose text is the message of errno 2 with the path in quotes.
\<close>

definition read_file :: "env \<Rightarrow> string \<Rightarrow> world \<Rightarrow> exc + string" where
  "read_file e path w =
     (case read_error e path of
        Some x \<Rightarrow> Inl x
      | None \<Rightarrow>
          (case files w path of
             None \<Rightarrow>
               Inl (Exception (''[Errno 2] No such file or directory: ''
                               @ [CHR 0x27] @ path @ [CHR 0x27]))
           | Some content \<Rightarrow> Inr content))"

text \<open>
  \<open>with open(path, mode) as f: f.write(content)\<close> for a write mode. The result pairs the
  exception that left the statement, if any, with the world.
\<close>

definition write_file :: "env \<Rightarrow> string \<Rightarrow> string \<Rightarrow> world \<Rightarrow> exc option \<times> world" where
  "write_file e path content w =
     (case open_error e path of
        Some x \<Rightarrow> (Some x, w)
      | None \<Rightarrow> (None, w\<lparr>files := (files w)(path \<mapsto> content)\<rparr>))"

text \<open>The body of the \<open>try\<close> statement of \<open>get_ogg\<close>.\<close>

definition get_ogg_try :: "env \<Rightarrow> string \<Rightarrow> string \<Rightarrow> world \<Rightarrow> exc option \<times> world" where
  \<open>get_ogg_try e ssml output_file w =
     (case synthesize_speech e ssml of
        Inl x \<Rightarrow> (Some x, w)
      | Inr audio_content \<Rightarrow>
          (case write_file e output_file audio_content w of
             (Some x, w') \<Rightarrow> (Some x, w')
           | (None, w') \<Rightarrow>
               (None, print (''Audio content written to file "'' @ output_file @ ''"'') w')))\<close>

text \<open>
  \<open>get_ogg\<close>: the client is constructed before the \<open>try\<close> statement; the handler is
  \<open>except Exception as e\<close>.
\<close>

definition get_ogg :: "env \<Rightarrow> string \<Rightarrow> string \<Rightarrow> world \<Rightarrow> exc option \<times> world" where
  "get_ogg e ssml output_file w =
     (case client_error e of
        Some x \<Rightarrow> (Some x, w)
      | None \<Rightarrow>
          (case get_ogg_try e ssml output_file w of
             (Some (Exception m), w') \<Rightarrow> (None, print (''Error generating audio: '' @ m) w')
           | (Some (BaseException m), w') \<Rightarrow> (Some (BaseException m), w')
           | (None, w') \<Rightarrow> (None, w')))"

text \<open>
  \<open>main\<close>, after the arguments are parsed. A first component \<open>None\<close> is a run that
  reaches the end of \<open>main\<close>; \<open>Some x\<close> is a run aborted by the uncaught exception \<open>x\<close>.
\<close>

definition main :: "env \<Rightarrow> args \<Rightarrow> world \<Rightarrow> exc option \<times> world" where
  "main e a w =
     (case read_file e (input_file a) w of
        Inl x \<Rightarrow> (Some x, w)
      | Inr markdown_input \<Rightarrow>
          (let ssml = markdown_to_ssml (markdown e) (inherited e) markdown_input;
               ssml_file = splitext_root e (input_file a) @ ''.ssml''
           in case write_file e ssml_file ssml w of
                (Some x, w') \<Rightarrow> (Some x, w')
              | (None, w') \<Rightarrow>
                  (let w'' = print (''SSML content written to file ''
                                    @ [CHR 0x27] @ ssml_file @ [CHR 0x27]) w'
                   in if get_ogg_flag a then
                        (let ogg_file = splitext_root e (input_file a) @ ''.ogg''
                         in get_ogg e ssml ogg_file w'')
                      else (None, w''))))"

text \<open>
  A run for the examples: the file \<open>doc.md\<close> holds the first document of the table, audio
  is requested, every file can be read and written, the client can be constructed, and
  the synthesis request fails.
\<close>

definition example_env :: env where
  \<open>example_env =
     \<lparr> markdown = example_markdown,
       inherited = example_base,
       splitext_root = (\<lambda>p. if p = ''doc.md'' then ''doc'' else p),
       read_error = (\<lambda>p. None),
       open_error = (\<lambda>p. None),
       client_error = None,
       synthesize_speech = (\<lambda>ssml. Inl (Exception ''503 Service Unavailable'')) \<rparr>\<close>

definition example_args :: args where
  "example_args = \<lparr> input_file = ''doc.md'', get_ogg_flag = True \<rparr>"

definition example_world :: world where
  \<open>example_world =
     \<lparr> files = [''doc.md'' \<mapsto> ''# Title\<newline>\<newline>Hello world.''], stdout = [] \<rparr>\<close>

section \<open>Properties of the renderer's methods\<close>

subsection \<open>Escaping, character by character\<close>

lemma str_replace_Nil [simp]: "str_replace old new [] = []"
  by (simp add: str_replace_def)

lemma str_replace_append: "str_replace old new (xs @ ys) = str_replace old new xs @ str_replace old new ys"
  by (simp add: str_replace_def)

lemma str_replace_Cons: "str_replace old new (c # cs) = (if c = old then new else [c]) @ str_replace old new cs"
  by (simp add: str_replace_def)

lemma html_escape_Nil [simp]: "html_escape [] = []"
  by (simp add: html_escape_def)

lemma html_escape_append: "html_escape (xs @ ys) = html_escape xs @ html_escape ys"
  by (simp add: html_escape_def str_replace_append)

lemma html_escape_single: "html_escape [c] = entity_of c"
  by (simp add: html_escape_def entity_of_def str_replace_Cons)

lemma html_escape_Cons: "html_escape (c # cs) = entity_of c @ html_escape cs"
  using html_escape_append [of "[c]" cs] by (simp add: html_escape_single)

lemma html_escape_chars: "html_escape s = concat (map entity_of s)"
  by (induction s) (simp_all add: html_escape_Cons)

lemma entity_of_cases:
  "c \<in> special \<and> entity_of c \<in> entities \<or> c \<notin> special \<and> entity_of c = [c]"
  by (auto simp: special_def entity_of_def entities_def)

lemma entity_of_no_raw:
  \<open>set (entity_of c) \<inter> {CHR ''<'', CHR ''>'', CHR 0x22, CHR 0x27} = {}\<close>
  by (simp add: entity_of_def)

lemma html_escape_no_raw:
  \<open>set (html_escape s) \<inter> {CHR ''<'', CHR ''>'', CHR 0x22, CHR 0x27} = {}\<close>
  unfolding html_escape_chars using entity_of_no_raw by (induction s) auto

lemma entity_of_amp:
  \<open>i < length (entity_of c) \<Longrightarrow> entity_of c ! i = CHR ''&'' \<Longrightarrow> i = 0 \<and> entity_of c \<in> entities\<close>
  by (auto simp: entity_of_def entities_def nth_Cons' split: if_splits)

lemma html_escape_amp:
  \<open>i < length (html_escape s) \<Longrightarrow> html_escape s ! i = CHR ''&'' \<Longrightarrow>
     \<exists>e\<in>entities. prefix e (drop i (html_escape s))\<close>
proof (induction s arbitrary: i)
  case Nil
  then show ?case by simp
next
  case (Cons c cs)
  show ?case
  proof (cases "i < length (entity_of c)")
    case True
    with Cons.prems have "entity_of c ! i = CHR ''&''"
      by (simp add: html_escape_Cons nth_append)
    with True have "i = 0" and "entity_of c \<in> entities"
      using entity_of_amp by blast+
    then show ?thesis
      by (auto simp: html_escape_Cons intro!: bexI [of _ "entity_of c"])
  next
    case False
    define j where "j = i - length (entity_of c)"
    from False Cons.prems have "j < length (html_escape cs)" and "html_escape cs ! j = CHR ''&''"
      by (simp_all add: j_def html_escape_Cons nth_append)
    then obtain e where "e \<in> entities" "prefix e (drop j (html_escape cs))"
      using Cons.IH by blast
    moreover from False have "drop i (html_escape (c # cs)) = drop j (html_escape cs)"
      by (simp add: j_def html_escape_Cons)
    ultimately show ?thesis by auto
  qed
qed

lemma length_html_escape_ge: "length s \<le> length (html_escape s)"
proof (induction s)
  case Nil
  then show ?case by simp
next
  case (Cons c cs)
  have "1 \<le> length (entity_of c)"
    by (simp add: entity_of_def)
  with Cons show ?case
    by (simp add: html_escape_Cons)
qed

lemma length_html_escape_gt:
  "\<exists>c\<in>set s. c \<in> special \<Longrightarrow> length s < length (html_escape s)"
proof (induction s)
  case Nil
  then show ?case by simp
next
  case (Cons c cs)
  show ?case
  proof (cases "c \<in> special")
    case True
    then have "1 < length (entity_of c)"
      by (auto simp: entity_of_def special_def)
    with length_html_escape_ge [of cs] show ?thesis
      by (simp add: html_escape_Cons)
  next
    case False
    with Cons.prems have "\<exists>c\<in>set cs. c \<in> special" by auto
    then have "length cs < length (html_escape cs)" by (rule Cons.IH)
    moreover from False have "entity_of c = [c]"
      using entity_of_cases by blast
    ultimately show ?thesis
      by (simp add: html_escape_Cons)
  qed
qed

lemma html_escape_has_amp:
  \<open>\<exists>c\<in>set s. c \<in> special \<Longrightarrow> CHR ''&'' \<in> set (html_escape s)\<close>
  by (auto simp: html_escape_chars special_def entity_of_def intro!: bexI)

lemma html_escape_entity_of:
  \<open>html_escape (entity_of c) = (if c \<in> special then ''&amp;'' @ tl (entity_of c) else [c])\<close>
  by (simp add: entity_of_def special_def html_escape_Cons)

lemma html_escape_concat: "html_escape (concat xss) = concat (map html_escape xss)"
  by (induction xss) (simp_all add: html_escape_append)

lemma html_escape_twice:
  \<open>html_escape (html_escape s) =
     concat (map (\<lambda>c. if c \<in> special then ''&amp;'' @ tl (entity_of c) else [c]) s)\<close>
proof -
  have "html_escape (html_escape s) = concat (map (\<lambda>c. html_escape (entity_of c)) s)"
    by (simp add: html_escape_chars [of s] html_escape_concat comp_def)
  then show ?thesis
    by (simp only: html_escape_entity_of)
qed

text \<open>
  C4: plain text renders as the concatenation of the escaped forms of its characters. The
  fragment contains none of the raw characters \<open><\<close>, \<open>>\<close>, the double quote and the single
  quote, and every \<open>&\<close> in it is the first character of one of the five entities.
\<close>

theorem text_only_entities:
  \<open>render_token base (Text s) = text_ssml s
   \<and> text_ssml s = concat (map entity_of s)
   \<and> set (text_ssml s) \<inter> {CHR ''<'', CHR ''>'', CHR 0x22, CHR 0x27} = {}
   \<and> (\<forall>i < length (text_ssml s). text_ssml s ! i = CHR ''&'' \<longrightarrow>
          (\<exists>e\<in>entities. prefix e (drop i (text_ssml s))))\<close>
proof (intro conjI allI impI)
  show \<open>render_token base (Text s) = text_ssml s\<close>
    by simp
  show \<open>text_ssml s = concat (map entity_of s)\<close>
    unfolding text_ssml_def by (rule html_escape_chars)
  show \<open>set (text_ssml s) \<inter> {CHR ''<'', CHR ''>'', CHR 0x22, CHR 0x27} = {}\<close>
    unfolding text_ssml_def by (rule html_escape_no_raw)
  show \<open>\<exists>e\<in>entities. prefix e (drop i (text_ssml s))\<close>
    if \<open>i < length (text_ssml s)\<close> and \<open>text_ssml s ! i = CHR ''&''\<close> for i
    using that unfolding text_ssml_def by (rule html_escape_amp)
qed

theorem text_only_entities_witness:
  \<open>text_ssml [CHR ''a'', CHR ''&'', CHR ''<'', CHR ''>'', CHR 0x22, CHR 0x27, CHR ''b'']
     = ''a&amp;&lt;&gt;&quot;&#x27;b''
   \<and> (1::nat) < length (text_ssml [CHR ''a'', CHR ''&'', CHR ''<'', CHR ''>'', CHR 0x22, CHR 0x27, CHR ''b''])
   \<and> text_ssml [CHR ''a'', CHR ''&'', CHR ''<'', CHR ''>'', CHR 0x22, CHR 0x27, CHR ''b''] ! 1 = CHR ''&''
   \<and> (\<exists>e\<in>entities.
         prefix e (drop 1 (text_ssml [CHR ''a'', CHR ''&'', CHR ''<'', CHR ''>'', CHR 0x22, CHR 0x27, CHR ''b''])))\<close>
proof -
  let ?s = \<open>[CHR ''a'', CHR ''&'', CHR ''<'', CHR ''>'', CHR 0x22, CHR 0x27, CHR ''b'']\<close>
  have eq: \<open>text_ssml ?s = ''a&amp;&lt;&gt;&quot;&#x27;b''\<close>
    by (simp add: text_ssml_def html_escape_def str_replace_def)
  have pos: \<open>(1::nat) < length (text_ssml ?s)\<close> \<open>text_ssml ?s ! 1 = CHR ''&''\<close>
    by (simp_all add: eq)
  with text_only_entities [of example_base ?s]
  have \<open>\<exists>e\<in>entities. prefix e (drop 1 (text_ssml ?s))\<close>
    by blast
  with eq pos show ?thesis
    by blast
qed

text \<open>
  C7: escaping is not idempotent. For a string with at least one escapable character,
  escaping the escaped string changes it again: the result is longer, and each escapable
  character of the original has become its entity with the leading \<open>&\<close> replaced by
  \<open>&amp;\<close>. No method of the renderer undoes an escape.
\<close>

theorem escape_not_idempotent:
  \<open>\<exists>c\<in>set s. c \<in> special \<Longrightarrow>
     text_ssml (text_ssml s) \<noteq> text_ssml s
     \<and> length (text_ssml s) < length (text_ssml (text_ssml s))
     \<and> text_ssml (text_ssml s) =
         concat (map (\<lambda>c. if c \<in> special then ''&amp;'' @ tl (entity_of c) else [c]) s)\<close>
proof -
  assume "\<exists>c\<in>set s. c \<in> special"
  then have "CHR ''&'' \<in> set (html_escape s)"
    by (rule html_escape_has_amp)
  then have "\<exists>c\<in>set (html_escape s). c \<in> special"
    by (auto simp: special_def)
  then have "length (html_escape s) < length (html_escape (html_escape s))"
    by (rule length_html_escape_gt)
  then show ?thesis
    using html_escape_twice [of s] by (auto simp: text_ssml_def)
qed

theorem escape_not_idempotent_witness:
  \<open>(\<exists>c\<in>set ''a<b''. c \<in> special)
   \<and> text_ssml ''a<b'' = ''a&lt;b''
   \<and> text_ssml (text_ssml ''a<b'') = ''a&amp;lt;b''
   \<and> text_ssml (text_ssml ''a<b'') \<noteq> text_ssml ''a<b''\<close>
proof -
  have h: \<open>\<exists>c\<in>set ''a<b''. c \<in> special\<close>
    by (simp add: special_def)
  show ?thesis
    using h escape_not_idempotent [OF h]
    by (simp add: text_ssml_def html_escape_Cons entity_of_def special_def)
qed

text \<open>
  C3: a heading renders as its child text, the break tag and a newline; the duration is
  300ms, 200ms, 100ms and 0ms for the levels 1 to 4 and 0ms for every other level.
\<close>

theorem heading_break_table:
  \<open>heading T 1 = T @ ''<break time="300ms"/>\<newline>''
   \<and> heading T 2 = T @ ''<break time="200ms"/>\<newline>''
   \<and> heading T 3 = T @ ''<break time="100ms"/>\<newline>''
   \<and> heading T 4 = T @ ''<break time="0ms"/>\<newline>''
   \<and> (L \<notin> {1, 2, 3, 4} \<longrightarrow> heading T L = T @ ''<break time="0ms"/>\<newline>'')\<close>
  by (simp add: heading_def dict_get_def BREAK_TIMES_def)

theorem heading_break_table_witness:
  \<open>(5::int) \<notin> {1, 2, 3, 4} \<and> (-1::int) \<notin> {1, 2, 3, 4}
   \<and> heading ''Title'' 5 = ''Title<break time="0ms"/>\<newline>''
   \<and> heading ''Title'' (-1) = ''Title<break time="0ms"/>\<newline>''
   \<and> heading ''Title'' 1 = ''Title<break time="300ms"/>\<newline>''\<close>
  using heading_break_table [of "''Title''" 5] heading_break_table [of "''Title''" "-1"]
  by simp

text \<open>
  C5: an image renders as "image of " followed by its title when the title is present
  and non-empty, and as the empty string otherwise; the source and the alternative text
  have no influence on the fragment.
\<close>

theorem image_title_only:
  "image_ssml src alt title =
     (if title \<noteq> None \<and> the title \<noteq> '''' then ''image of '' @ the title else '''')
   \<and> image_ssml src alt title = image_ssml src' alt' title"
  by (simp add: image_ssml_def split: option.split)

text \<open>
  C8: a code span renders exactly as plain text does, and the rendering of a code block
  does not depend on its info annotation; both are the escaped content with no markup
  added.
\<close>

theorem code_rendered_as_text:
  "codespan s = text_ssml s
   \<and> block_code c info = block_code c info'
   \<and> block_code c info = html_escape c
   \<and> codespan s = html_escape s"
  by (simp add: codespan_def block_code_def text_ssml_def)

section \<open>Properties of the translator\<close>

text \<open>
  C2: for the document of a level-one heading "Title" and a paragraph "Hello world.",
  \<open>markdown_to_ssml\<close> returns the two fragments between \<open><speak>\<close> and \<open></speak>\<close> with
  nothing added around them. The parser is outside the repository; its result on this
  text is the hypothesis.
\<close>

theorem translate_title_hello:
  assumes \<open>parse ''# Title\<newline>\<newline>Hello world.''
             = [Heading 1 [Text ''Title''], Paragraph [Text ''Hello world.'']]\<close>
  shows \<open>markdown_to_ssml parse base ''# Title\<newline>\<newline>Hello world.''
           = ''<speak>Title<break time="300ms"/>\<newline><p>Hello world.<break time="100ms"/></p>\<newline></speak>''\<close>
  using assms
  by (simp add: markdown_to_ssml_def heading_def paragraph_ssml_def text_ssml_def
      html_escape_Cons entity_of_def dict_get_def BREAK_TIMES_def PARAGRAPH_BREAK_def)

theorem translate_title_hello_witness:
  \<open>example_markdown ''# Title\<newline>\<newline>Hello world.''
     = [Heading 1 [Text ''Title''], Paragraph [Text ''Hello world.'']]
   \<and> markdown_to_ssml example_markdown example_base ''# Title\<newline>\<newline>Hello world.''
     = ''<speak>Title<break time="300ms"/>\<newline><p>Hello world.<break time="100ms"/></p>\<newline></speak>''\<close>
proof -
  have h: \<open>example_markdown ''# Title\<newline>\<newline>Hello world.''
             = [Heading 1 [Text ''Title''], Paragraph [Text ''Hello world.'']]\<close>
    by (simp add: example_markdown_def)
  show ?thesis
    using h translate_title_hello [of example_markdown example_base, OF h] by simp
qed

subsection \<open>Nodes the renderer leaves to the class it extends\<close>












subsection \<open>Well-formed output for trees with plain image titles and link targets\<close>

text \<open>
  Every fragment of such a tree takes the scanner from character data, with any stack of
  open elements, back to character data with the same stack.
\<close>

lemma scan_plain:
  \<open>CHR ''<'' \<notin> set s \<Longrightarrow> CHR ''&'' \<notin> set s \<Longrightarrow>
     xml_scan Content stack (s @ rest) = xml_scan Content stack rest\<close>
  by (induction s) auto

lemma scan_entity:
  \<open>xml_scan Content stack (entity_of c @ rest) = xml_scan Content stack rest\<close>
  by (simp add: entity_of_def ref_char_def)

lemma scan_escape:
  \<open>xml_scan Content stack (html_escape s @ rest) = xml_scan Content stack rest\<close>
  by (induction s) (simp_all add: html_escape_Cons scan_entity)

lemma scan_break:
  \<open>d \<in> {''300ms'', ''200ms'', ''100ms'', ''0ms'', ''400ms'', ''600ms''} \<Longrightarrow>
     xml_scan Content stack (''<break time="'' @ d @ ''"/>'' @ rest)
       = xml_scan Content stack rest\<close>
  by (auto simp: apply_tag_def tag_name_def)

lemma break_time_cases:
  \<open>dict_get BREAK_TIMES level ''0ms'' \<in> {''300ms'', ''200ms'', ''100ms'', ''0ms'', ''400ms'', ''600ms''}\<close>
  by (simp add: dict_get_def BREAK_TIMES_def)

lemma scan_heading:
  assumes \<open>\<And>stack rest. xml_scan Content stack (t @ rest) = xml_scan Content stack rest\<close>
  shows \<open>xml_scan Content stack (heading t level @ rest) = xml_scan Content stack rest\<close>
  using scan_break [OF break_time_cases, of stack level "CHR ''\<newline>'' # rest"]
  by (simp add: heading_def assms)

lemma scan_paragraph:
  assumes \<open>\<And>stack rest. xml_scan Content stack (t @ rest) = xml_scan Content stack rest\<close>
  shows \<open>xml_scan Content stack (paragraph_ssml t @ rest) = xml_scan Content stack rest\<close>
proof -
  have \<open>xml_scan Content stack (paragraph_ssml t @ rest)
          = xml_scan Content (''p'' # stack) (t @ ''<break time="'' @ ''100ms'' @ ''"/>'' @ ''</p>\<newline>'' @ rest)\<close>
    by (simp add: paragraph_ssml_def PARAGRAPH_BREAK_def apply_tag_def tag_name_def)
  also have \<open>\<dots> = xml_scan Content (''p'' # stack) (''<break time="'' @ ''100ms'' @ ''"/>'' @ ''</p>\<newline>'' @ rest)\<close>
    by (rule assms)
  also have \<open>\<dots> = xml_scan Content (''p'' # stack) (''</p>\<newline>'' @ rest)\<close>
    by (rule scan_break) simp
  also have \<open>\<dots> = xml_scan Content stack rest\<close>
    by (simp add: apply_tag_def)
  finally show ?thesis .
qed

lemma scan_emphasis:
  assumes \<open>\<And>stack rest. xml_scan Content stack (t @ rest) = xml_scan Content stack rest\<close>
  shows \<open>xml_scan Content stack (emphasis t @ rest) = xml_scan Content stack rest\<close>
proof -
  have \<open>xml_scan Content stack (emphasis t @ rest)
          = xml_scan Content (''emphasis'' # stack) (t @ ''</emphasis>'' @ rest)\<close>
    by (simp add: emphasis_def apply_tag_def tag_name_def)
  also have \<open>\<dots> = xml_scan Content (''emphasis'' # stack) (''</emphasis>'' @ rest)\<close>
    by (rule assms)
  also have \<open>\<dots> = xml_scan Content stack rest\<close>
    by (simp add: apply_tag_def)
  finally show ?thesis .
qed

lemma scan_strong:
  assumes \<open>\<And>stack rest. xml_scan Content stack (t @ rest) = xml_scan Content stack rest\<close>
  shows \<open>xml_scan Content stack (strong t @ rest) = xml_scan Content stack rest\<close>
proof -
  have \<open>xml_scan Content stack (strong t @ rest)
          = xml_scan Content (''emphasis'' # stack) (t @ ''</emphasis>'' @ rest)\<close>
    by (simp add: strong_def apply_tag_def tag_name_def)
  also have \<open>\<dots> = xml_scan Content (''emphasis'' # stack) (''</emphasis>'' @ rest)\<close>
    by (rule assms)
  also have \<open>\<dots> = xml_scan Content stack rest\<close>
    by (simp add: apply_tag_def)
  finally show ?thesis .
qed

lemma scan_image:
  \<open>plain_title title \<Longrightarrow>
     xml_scan Content stack (image_ssml src alt title @ rest) = xml_scan Content stack rest\<close>
  by (cases title) (simp_all add: image_ssml_def scan_plain)

lemma scan_rendered:
  shows \<open>ssml_node n \<Longrightarrow>
           xml_scan Content stack (render_token base n @ rest) = xml_scan Content stack rest\<close>
    and \<open>ssml_nodes ns \<Longrightarrow>
           xml_scan Content stack (render_tokens base ns @ rest) = xml_scan Content stack rest\<close>
proof (induction n and ns arbitrary: stack rest and stack rest rule: ssml_node_ssml_nodes.induct)
  case (1 level children)
  then show ?case by (simp add: scan_heading)
next
  case (2 children)
  then show ?case by (simp add: scan_paragraph)
next
  case (3 children)
  then show ?case by (simp add: scan_emphasis)
next
  case (4 children)
  then show ?case by (simp add: scan_strong)
next
  case 5
  show ?case using scan_break [of "''400ms''" stack "CHR ''\<newline>'' # rest"] by (simp add: linebreak_def LINEBREAK_def)
next
  case 6
  show ?case using scan_break [of "''600ms''" stack "CHR ''\<newline>'' # rest"] by (simp add: thematic_break_def HRULE_BREAK_def)
next
  case (7 src alt title)
  then show ?case by (simp add: scan_image)
next
  case (8 children target title)
  then show ?case by (simp add: link_def scan_plain)
next
  case (9 raw)
  then show ?case by (simp add: text_ssml_def scan_escape)
next
  case (10 raw)
  then show ?case by (simp add: codespan_def text_ssml_def scan_escape)
next
  case (11 raw info)
  then show ?case by (simp add: block_code_def text_ssml_def scan_escape)
qed simp_all

lemma well_formed_with_plain_titles:
  assumes "ssml_nodes (parse md)"
  shows "well_formed_content (render_tokens base (parse md))"
    and "well_formed_content (markdown_to_ssml parse base md)"
proof -
  show "well_formed_content (render_tokens base (parse md))"
    using scan_rendered(2) [OF assms, of "[]" base "[]"] by (simp add: well_formed_content_def)
  have \<open>xml_scan Content [] (markdown_to_ssml parse base md)
          = xml_scan Content [''speak''] (render_tokens base (parse md) @ ''</speak>'')\<close>
    by (simp add: markdown_to_ssml_def apply_tag_def tag_name_def)
  also have \<open>\<dots> = xml_scan Content [''speak''] ''</speak>''\<close>
    by (rule scan_rendered(2) [OF assms])
  also have \<open>\<dots> = True\<close>
    by (simp add: apply_tag_def)
  finally show "well_formed_content (markdown_to_ssml parse base md)"
    by (simp add: well_formed_content_def)
qed

subsection \<open>Counting paragraph tags for trees with plain image titles and link targets\<close>

lemma tag_closed_Nil [simp]: "tag_closed []"
  by (simp add: tag_closed_def)

lemma tag_closed_tl: "tag_closed (c # cs) \<Longrightarrow> tag_closed cs"
  by (auto simp: tag_closed_def suffix_Cons)

lemma prefix_p_append:
  assumes "tag_closed (c # cs)"
  shows "prefix ''<p>'' (c # cs @ b) \<longleftrightarrow> prefix ''<p>'' (c # cs)"
proof (cases cs)
  case Nil
  with assms show ?thesis by (auto simp: tag_closed_def)
next
  case (Cons d ds)
  note cs = this
  show ?thesis
  proof (cases ds)
    case Nil
    with assms cs show ?thesis by (auto simp: tag_closed_def suffix_Cons)
  next
    case (Cons e es)
    with cs show ?thesis by simp
  qed
qed

lemma count_sub_append:
  "tag_closed a \<Longrightarrow> count_sub ''<p>'' (a @ b) = count_sub ''<p>'' a + count_sub ''<p>'' b"
proof (induction a)
  case Nil
  then show ?case by simp
next
  case (Cons c cs)
  from Cons.prems have "tag_closed cs" by (rule tag_closed_tl)
  then have "count_sub ''<p>'' (cs @ b) = count_sub ''<p>'' cs + count_sub ''<p>'' b"
    by (rule Cons.IH)
  moreover have "prefix ''<p>'' (c # cs @ b) \<longleftrightarrow> prefix ''<p>'' (c # cs)"
    using Cons.prems by (rule prefix_p_append)
  ultimately show ?case by simp
qed

lemma tag_closed_last:
  \<open>s \<noteq> [] \<Longrightarrow> last s \<noteq> CHR ''<'' \<Longrightarrow> last s \<noteq> CHR ''p'' \<Longrightarrow> tag_closed s\<close>
  by (auto simp: tag_closed_def suffix_def)

lemma tag_closed_append:
  assumes "tag_closed a" and "tag_closed b"
  shows "tag_closed (a @ b)"
proof (cases b rule: rev_cases)
  case Nil
  with assms show ?thesis by simp
next
  case (snoc bs x)
  note b = this
  show ?thesis
  proof (cases bs rule: rev_cases)
    case Nil
    with assms b show ?thesis
      by (auto simp: tag_closed_def suffix_def)
  next
    case (snoc bs' y)
    with assms b show ?thesis
      by (auto simp: tag_closed_def suffix_def)
  qed
qed

lemma no_lt_count:
  \<open>CHR ''<'' \<notin> set s \<Longrightarrow> count_sub ''<p>'' s = 0\<close>
  by (induction s) auto

lemma no_lt_closed:
  \<open>CHR ''<'' \<notin> set s \<Longrightarrow> tag_closed s\<close>
  by (auto simp: tag_closed_def suffix_def)

lemma count_break:
  \<open>d \<in> {''300ms'', ''200ms'', ''100ms'', ''0ms'', ''400ms'', ''600ms''} \<Longrightarrow>
     count_sub ''<p>'' (''<break time="'' @ d @ ''"/>'' @ rest) = count_sub ''<p>'' rest\<close>
  by auto

lemma html_escape_no_lt: \<open>CHR ''<'' \<notin> set (html_escape s)\<close>
  using html_escape_no_raw [of s] by auto

lemma count_heading:
  assumes "tag_closed t"
  shows "tag_closed (heading t level)"
    and "count_sub ''<p>'' (heading t level) = count_sub ''<p>'' t"
proof -
  show "tag_closed (heading t level)"
    by (rule tag_closed_last) (simp_all add: heading_def)
  show "count_sub ''<p>'' (heading t level) = count_sub ''<p>'' t"
    using count_break [OF break_time_cases, of level \<open>''\<newline>''\<close>]
    by (simp add: heading_def count_sub_append [OF assms])
qed

lemma count_paragraph:
  assumes "tag_closed t"
  shows "tag_closed (paragraph_ssml t)"
    and "count_sub ''<p>'' (paragraph_ssml t) = Suc (count_sub ''<p>'' t)"
proof -
  show "tag_closed (paragraph_ssml t)"
    by (rule tag_closed_last) (simp_all add: paragraph_ssml_def)
  have \<open>count_sub ''<p>'' (paragraph_ssml t)
          = count_sub ''<p>'' (''<p>'' @ t @ ''<break time="100ms"/></p>\<newline>'')\<close>
    by (simp add: paragraph_ssml_def PARAGRAPH_BREAK_def)
  also have \<open>\<dots> = count_sub ''<p>'' ''<p>'' + count_sub ''<p>'' (t @ ''<break time="100ms"/></p>\<newline>'')\<close>
    by (rule count_sub_append) (simp add: tag_closed_def suffix_Cons)
  also have \<open>\<dots> = 1 + (count_sub ''<p>'' t + count_sub ''<p>'' ''<break time="100ms"/></p>\<newline>'')\<close>
    by (simp add: count_sub_append [OF assms])
  also have \<open>\<dots> = Suc (count_sub ''<p>'' t)\<close>
    by simp
  finally show "count_sub ''<p>'' (paragraph_ssml t) = Suc (count_sub ''<p>'' t)" .
qed

lemma count_emphasis:
  assumes "tag_closed t"
  shows "tag_closed (emphasis t)"
    and "count_sub ''<p>'' (emphasis t) = count_sub ''<p>'' t"
proof -
  show "tag_closed (emphasis t)"
    by (rule tag_closed_last) (simp_all add: emphasis_def)
  have \<open>count_sub ''<p>'' (emphasis t)
          = count_sub ''<p>'' ''<emphasis level="moderate">'' + count_sub ''<p>'' (t @ ''</emphasis>'')\<close>
    unfolding emphasis_def by (rule count_sub_append) (simp add: tag_closed_def suffix_Cons)
  then show "count_sub ''<p>'' (emphasis t) = count_sub ''<p>'' t"
    by (simp add: count_sub_append [OF assms])
qed

lemma count_strong:
  assumes "tag_closed t"
  shows "tag_closed (strong t)"
    and "count_sub ''<p>'' (strong t) = count_sub ''<p>'' t"
proof -
  show "tag_closed (strong t)"
    by (rule tag_closed_last) (simp_all add: strong_def)
  have \<open>count_sub ''<p>'' (strong t)
          = count_sub ''<p>'' ''<emphasis level="strong">'' + count_sub ''<p>'' (t @ ''</emphasis>'')\<close>
    unfolding strong_def by (rule count_sub_append) (simp add: tag_closed_def suffix_Cons)
  then show "count_sub ''<p>'' (strong t) = count_sub ''<p>'' t"
    by (simp add: count_sub_append [OF assms])
qed

lemma count_image:
  assumes "plain_title title"
  shows "tag_closed (image_ssml src alt title)"
    and "count_sub ''<p>'' (image_ssml src alt title) = 0"
  using assms
  by (cases title; simp add: image_ssml_def no_lt_closed no_lt_count)+

lemma count_rendered:
  shows \<open>ssml_node n \<Longrightarrow>
           tag_closed (render_token base n)
           \<and> count_sub ''<p>'' (render_token base n) = length (filter is_paragraph (nodes_of n))\<close>
    and \<open>ssml_nodes ns \<Longrightarrow>
           tag_closed (render_tokens base ns)
           \<and> count_sub ''<p>'' (render_tokens base ns)
               = length (filter is_paragraph (nodes_of_list ns))\<close>
proof (induction n and ns rule: ssml_node_ssml_nodes.induct)
  case (1 level children)
  then show ?case by (simp add: count_heading)
next
  case (2 children)
  then show ?case by (simp add: count_paragraph)
next
  case (3 children)
  then show ?case by (simp add: count_emphasis)
next
  case (4 children)
  then show ?case by (simp add: count_strong)
next
  case 5
  show ?case by (simp add: linebreak_def LINEBREAK_def tag_closed_def suffix_Cons)
next
  case 6
  show ?case by (simp add: thematic_break_def HRULE_BREAK_def tag_closed_def suffix_Cons)
next
  case (7 src alt title)
  then show ?case by (simp add: count_image)
next
  case (8 children target title)
  then show ?case by (simp add: link_def no_lt_closed no_lt_count)
next
  case (9 raw)
  show ?case by (simp add: text_ssml_def no_lt_closed no_lt_count html_escape_no_lt)
next
  case (10 raw)
  show ?case by (simp add: codespan_def text_ssml_def no_lt_closed no_lt_count html_escape_no_lt)
next
  case (11 raw info)
  show ?case by (simp add: block_code_def text_ssml_def no_lt_closed no_lt_count html_escape_no_lt)
next
  case (16 tok toks)
  then show ?case by (simp add: count_sub_append tag_closed_append)
qed simp_all

lemma paragraph_count_with_plain_titles:
  assumes "ssml_nodes (parse md)"
  shows "count_sub ''<p>'' (markdown_to_ssml parse base md) = count_paragraphs (parse md)"
proof -
  let ?out = "render_tokens base (parse md)"
  have closed: "tag_closed ?out"
    and count: "count_sub ''<p>'' ?out = count_paragraphs (parse md)"
    using count_rendered(2) [OF assms, of base] by (simp_all add: count_paragraphs_def)
  have "count_sub ''<p>'' (markdown_to_ssml parse base md)
          = count_sub ''<p>'' (''<speak>'' @ ?out @ ''</speak>'')"
    by (simp add: markdown_to_ssml_def)
  also have "\<dots> = count_sub ''<p>'' ''<speak>'' + count_sub ''<p>'' (?out @ ''</speak>'')"
    by (rule count_sub_append) (simp add: tag_closed_def suffix_Cons)
  also have "\<dots> = count_sub ''<p>'' ?out"
    by (simp add: count_sub_append [OF closed])
  finally show ?thesis
    by (simp add: count)
qed

subsection \<open>Image titles\<close>

text \<open>
  C1: the central invariant fails for an image title. \<open>image\<close> inserts the title as it
  is, where \<open>text\<close>, \<open>codespan\<close> and \<open>block_code\<close> escape their content: for the title
  \<open>a < b\<close> the output has a raw \<open><\<close> in character data and is not well-formed, while
  the same characters as plain text are.
\<close>

theorem image_title_not_escaped:
  \<open>markdown_to_ssml example_markdown example_base ''![alt](pic.png "a < b")''
     = ''<speak><p>image of a < b<break time="100ms"/></p>\<newline></speak>''
   \<and> \<not> well_formed_content
         (markdown_to_ssml example_markdown example_base ''![alt](pic.png "a < b")'')
   \<and> \<not> well_formed_content
         (render_tokens example_base (example_markdown ''![alt](pic.png "a < b")''))
   \<and> well_formed_content (render_tokens example_base [Paragraph [Text ''a < b'']])\<close>
  by (simp add: markdown_to_ssml_def example_markdown_def well_formed_content_def
      paragraph_ssml_def image_ssml_def PARAGRAPH_BREAK_def apply_tag_def tag_name_def
      text_ssml_def html_escape_Cons entity_of_def ref_char_def)

text \<open>
  C6: by the same unescaped title the number of \<open><p>\<close> in the output can exceed the
  number of paragraph nodes: one paragraph with an image titled \<open><p>\<close> gives two.
\<close>

theorem image_title_adds_p_tag:
  \<open>markdown_to_ssml example_markdown example_base ''![alt](pic.png "<p>")''
     = ''<speak><p>image of <p><break time="100ms"/></p>\<newline></speak>''
   \<and> count_sub ''<p>'' (markdown_to_ssml example_markdown example_base ''![alt](pic.png "<p>")'') = 2
   \<and> count_paragraphs (example_markdown ''![alt](pic.png "<p>")'') = 1\<close>
  by (simp add: markdown_to_ssml_def example_markdown_def paragraph_ssml_def image_ssml_def
      PARAGRAPH_BREAK_def count_paragraphs_def)

section \<open>Properties of the run\<close>

lemma get_ogg_synthesis_exception:
  assumes "client_error e = None"
      and "synthesize_speech e ssml = Inl (Exception m)"
  shows "get_ogg e ssml output_file w = (None, print (''Error generating audio: '' @ m) w)"
  using assms by (simp add: get_ogg_def get_ogg_try_def)

lemma get_ogg_client_exception:
  assumes "client_error e = Some x"
  shows "get_ogg e ssml output_file w = (Some x, w)"
  using assms by (simp add: get_ogg_def)

text \<open>
  The failures the \<open>try\<close> statement covers: when the client has been constructed and the
  synthesis request raises an exception of class \<open>Exception\<close>, with any message,
  \<open>get_ogg\<close> catches it, prints the error message and returns with the files as they
  were; the run of \<open>main\<close> ends normally, and the SSML file, written before \<open>get_ogg\<close> is
  called, holds the SSML text.
\<close>

lemma synthesis_failure_isolated:
  assumes "read_file e (input_file a) w = Inr md"
      and "open_error e (splitext_root e (input_file a) @ ''.ssml'') = None"
      and "get_ogg_flag a"
      and "client_error e = None"
      and "synthesize_speech e (markdown_to_ssml (markdown e) (inherited e) md) = Inl (Exception m)"
  shows "main e a w =
           (None,
            w\<lparr>files := (files w)(splitext_root e (input_file a) @ ''.ssml''
                                   \<mapsto> markdown_to_ssml (markdown e) (inherited e) md),
              stdout := stdout w @
                [''SSML content written to file '' @ [CHR 0x27]
                   @ splitext_root e (input_file a) @ ''.ssml'' @ [CHR 0x27],
                 ''Error generating audio: '' @ m]\<rparr>)
       \<and> get_ogg e (markdown_to_ssml (markdown e) (inherited e) md) output_file w'
           = (None, w'\<lparr>stdout := stdout w' @ [''Error generating audio: '' @ m]\<rparr>)"
  using assms
  by (simp add: main_def write_file_def Let_def get_ogg_synthesis_exception print_def)

text \<open>
  The same for a failure to construct the client, which the \<open>try\<close> statement does not
  cover: whenever the constructor raises, the exception leaves \<open>get_ogg\<close> and \<open>main\<close>
  after the SSML file is written and its confirmation printed, and nothing more is
  printed.
\<close>

lemma client_failure_aborts:
  assumes "read_file e (input_file a) w = Inr md"
      and "open_error e (splitext_root e (input_file a) @ ''.ssml'') = None"
      and "get_ogg_flag a"
      and "client_error e = Some x"
  shows "main e a w =
           (Some x,
            w\<lparr>files := (files w)(splitext_root e (input_file a) @ ''.ssml''
                                   \<mapsto> markdown_to_ssml (markdown e) (inherited e) md),
              stdout := stdout w @
                [''SSML content written to file '' @ [CHR 0x27]
                   @ splitext_root e (input_file a) @ ''.ssml'' @ [CHR 0x27]]\<rparr>)"
  using assms
  by (simp add: main_def write_file_def Let_def get_ogg_client_exception print_def)

text \<open>
  C9: a failure of the synthesis collaborator is not always caught. In the example run
  the synthesis request fails, and the run ends normally with the error message printed.
  In the same run with a client constructor that raises, the exception is not caught:
  the client is constructed before the \<open>try\<close> statement, so the exception leaves
  \<open>get_ogg\<close> and \<open>main\<close>, the run is aborted and no error message is printed. In both
  runs the SSML file, written before, stays in place.
\<close>

theorem client_failure_not_caught:
  \<open>fst (main example_env example_args example_world) = None
   \<and> stdout (snd (main example_env example_args example_world))
     = [''SSML content written to file '' @ [CHR 0x27] @ ''doc.ssml'' @ [CHR 0x27],
        ''Error generating audio: 503 Service Unavailable'']
   \<and> client_error (example_env\<lparr>client_error := Some (Exception ''DefaultCredentialsError'')\<rparr>)
     = Some (Exception ''DefaultCredentialsError'')
   \<and> fst (main (example_env\<lparr>client_error := Some (Exception ''DefaultCredentialsError'')\<rparr>)
            example_args example_world)
     = Some (Exception ''DefaultCredentialsError'')
   \<and> stdout (snd (main (example_env\<lparr>client_error := Some (Exception ''DefaultCredentialsError'')\<rparr>)
                    example_args example_world))
     = [''SSML content written to file '' @ [CHR 0x27] @ ''doc.ssml'' @ [CHR 0x27]]
   \<and> files (snd (main (example_env\<lparr>client_error := Some (Exception ''DefaultCredentialsError'')\<rparr>)
                    example_args example_world)) ''doc.ssml''
     = Some ''<speak>Title<break time="300ms"/>\<newline><p>Hello world.<break time="100ms"/></p>\<newline></speak>''\<close>
  by (simp add: main_def read_file_def write_file_def Let_def get_ogg_def get_ogg_try_def
      print_def example_env_def example_args_def example_world_def
      example_markdown_def markdown_to_ssml_def heading_def
      paragraph_ssml_def text_ssml_def html_escape_Cons entity_of_def dict_get_def
      BREAK_TIMES_def PARAGRAPH_BREAK_def)

end
